theory Spec2Isabelle
  imports Complex_Main "HOL-Library.Log_Nat"
begin

section \<open>The recommendation engine of sleep-or-cram\<close>

text \<open>
  The engine is the function \<open>calculateRecommendation\<close> of the component
  \<open>SleepOrCram\<close> (src/sleep-or-cram.tsx). It reads the component's state, computes two
  scenarios and stores a \<open>Result\<close> in the state.

  Numbers: a TypeScript \<open>number\<close> is an IEEE 754 double. A finite double is a rational
  number, so the model keeps the value of a \<open>number\<close> in the type \<open>rat\<close>, and every
  arithmetic operation of the source is the exact operation followed by the rounding
  \<open>to_double\<close> to the nearest double. The values that \<open>Math.round\<close> and \<open>Math.floor\<close>
  produce are integers (\<open>int\<close>).
\<close>

subsection \<open>Double-precision arithmetic\<close>

text \<open>
  \<open>pow2 e\<close> is the power of two with the integer exponent \<open>e\<close>, and \<open>ilog2 x\<close> is the
  exponent of a positive \<open>x\<close>: the integer \<open>e\<close> with \<open>pow2 e \<le> x < pow2 (e + 1)\<close>.
\<close>

definition pow2 :: "int \<Rightarrow> rat" where
  "pow2 e = 2 powi e"

definition ilog2 :: "rat \<Rightarrow> int" where
  "ilog2 x =
     (let (p, q) = quotient_of x;
          d = bitlen p - bitlen q
      in if pow2 d \<le> x then d else d - 1)"

text \<open>The nearest integer, a tie going to the even one.\<close>

definition round_even :: "rat \<Rightarrow> int" where
  "round_even q =
     (let f = \<lfloor>q\<rfloor>;
          r = q - of_int f
      in if r < 1 / 2 then f
         else if 1 / 2 < r then f + 1
         else if even f then f else f + 1)"

text \<open>
  \<open>to_double x\<close> is the double nearest to \<open>x\<close> (round to nearest, ties to even): a
  significand of 53 bits, so the doubles around \<open>x\<close> are the multiples of
  \<open>pow2 (ilog2 \<bar>x\<bar> - 52)\<close>. The exponent is not bounded in the model: overflow to an
  infinity and the subnormal numbers are left out, as are NaN and the sign of zero. No
  value the engine computes from two clock times, three quiz answers and a slider position
  comes near the exponent bounds.
\<close>

definition to_double :: "rat \<Rightarrow> rat" where
  "to_double x =
     (if x = 0 then 0
      else (let u = pow2 (ilog2 \<bar>x\<bar> - 52)
            in of_int (round_even (x / u)) * u))"

text \<open>The four operations of the source on doubles.\<close>

definition add_d :: "rat \<Rightarrow> rat \<Rightarrow> rat" where
  "add_d x y = to_double (x + y)"

definition sub_d :: "rat \<Rightarrow> rat \<Rightarrow> rat" where
  "sub_d x y = to_double (x - y)"

definition mul_d :: "rat \<Rightarrow> rat \<Rightarrow> rat" where
  "mul_d x y = to_double (x * y)"

definition div_d :: "rat \<Rightarrow> rat \<Rightarrow> rat" where
  "div_d x y = to_double (x / y)"

subsection \<open>The JavaScript library functions the engine calls\<close>

text \<open>
  \<open>Math.round\<close>: the nearest integer, a tie going towards plus infinity. \<open>Math.floor\<close>:
  the largest integer not above the argument. Both are exact on the value of the double.
\<close>

definition Math_round :: "rat \<Rightarrow> int" where
  "Math_round x = \<lfloor>x + 1 / 2\<rfloor>"

definition Math_floor :: "rat \<Rightarrow> int" where
  "Math_floor x = \<lfloor>x\<rfloor>"

text \<open>
  \<open>String.prototype.split\<close> with the separator \<open>':'\<close>: the pieces between the colons, in
  order; a string with no colon is its own single piece.
\<close>

fun split_colon :: "string \<Rightarrow> string list" where
  "split_colon [] = [[]]"
| "split_colon (c # cs) =
     (if c = CHR '':'' then [] # split_colon cs
      else (case split_colon cs of
              [] \<Rightarrow> [[c]]
            | p # ps \<Rightarrow> (c # p) # ps))"

text \<open>
  \<open>Number\<close> applied to a string. The model covers the strings that are one or more decimal
  digits, which \<open>Number\<close> reads as the double nearest to that natural number. On every
  other string the result is \<open>None\<close>: JavaScript gives NaN there, or reads a form of
  numeral (a sign, a fraction, an exponent, a hexadecimal literal, surrounding white space,
  the empty string) that a time input does not produce.
\<close>

definition digit_value :: "char \<Rightarrow> nat option" where
  "digit_value c =
     (let n = (of_char c :: nat) in if 48 \<le> n \<and> n \<le> 57 then Some (n - 48) else None)"

fun decimal :: "nat \<Rightarrow> string \<Rightarrow> nat option" where
  "decimal acc [] = Some acc"
| "decimal acc (c # cs) =
     (case digit_value c of
        None \<Rightarrow> None
      | Some d \<Rightarrow> decimal (10 * acc + d) cs)"

definition Number :: "string \<Rightarrow> rat option" where
  "Number str =
     (if str = [] then None else map_option (\<lambda>n. to_double (of_nat n)) (decimal 0 str))"

text \<open>
  What a template literal prints for a number: an integer in decimal, with a minus sign
  when it is negative. The other numbers the engine prints are results of
  \<open>Math.floor(x * 10) / 10\<close>, each the double nearest to some \<open>k / 10\<close>; for such a double
  JavaScript prints the shortest decimal that reads back as it, which is \<open>k / 10\<close> with
  its decimal digit unless that digit is zero. \<open>toString_tenths\<close> recovers \<open>k\<close> as the
  integer nearest to ten times the value.
\<close>

fun digits_of :: "nat \<Rightarrow> string" where
  "digits_of n =
     (if n < 10 then [char_of (48 + n)]
      else digits_of (n div 10) @ [char_of (48 + n mod 10)])"

declare digits_of.simps [simp del]

definition toString_int :: "int \<Rightarrow> string" where
  "toString_int i = (if i < 0 then CHR ''-'' # digits_of (nat (- i)) else digits_of (nat i))"

definition toString_tenths :: "rat \<Rightarrow> string" where
  "toString_tenths x =
     (let k = Math_round (\<bar>x\<bar> * 10);
          whole = digits_of (nat (k div 10));
          tenth = nat (k mod 10)
      in (if x < 0 \<and> k \<noteq> 0 then ''-'' else [])
         @ whole
         @ (if tenth = 0 then [] else CHR ''.'' # digits_of tenth))"

subsection \<open>The state of the component\<close>

datatype Decision = Sleep | StrategicCram

record Result =
  decision :: Decision
  reasoning :: string
  projectedBoost :: int
  actionPlan :: "string list"
  scienceNote :: string
  availableHours :: rat
  effectiveStudyHours :: rat
  cognitiveState :: int
  adjustedConfidence :: int
  boostS1 :: int
  boostS2 :: int
  sleepBenefitS1 :: int
  cramBenefitS2 :: int
  sleepBenefitS2 :: int

record QuizAnswers =
  q1 :: rat
  q2 :: rat
  q3 :: rat

record State =
  step :: string
  examTime :: string
  currentTime :: string
  confidence :: rat
  hoursStudied :: rat
  quizAnswers :: QuizAnswers
  result :: "Result option"

subsection \<open>The local values of \<open>calculateRecommendation\<close>\<close>

text \<open>
  Each local \<open>const\<close> of the function is a definition of its own, taking the values it
  is computed from; the two closures \<open>getCramBenefit\<close> and \<open>getSleepBenefit\<close> take the
  locals they capture as their first arguments. A local whose name is also a field of
  \<open>Result\<close> carries the prefix \<open>local_\<close>; an argument that would be named like a field
  of the state is shortened (\<open>avail\<close>, \<open>studied\<close>, \<open>conf\<close>, \<open>quiz\<close>).
\<close>

definition finalConfidence :: "QuizAnswers \<Rightarrow> rat \<Rightarrow> int" where
  "finalConfidence quiz conf =
     Math_round
       (add_d (mul_d (to_double (7 / 10)) (add_d (add_d (q1 quiz) (q2 quiz)) (q3 quiz)))
              (mul_d (to_double (3 / 10)) conf))"

definition local_availableHours :: "rat \<Rightarrow> rat \<Rightarrow> rat" where
  "local_availableHours now exam =
     (let avail = sub_d exam now
      in if avail < 0 then add_d avail 24 else avail)"

definition minSleepNeeded :: rat where
  "minSleepNeeded = 6"

definition optimalSleep :: rat where
  "optimalSleep = 8"

definition maxProductiveStudy :: rat where
  "maxProductiveStudy = 3"

definition isLateNight :: "rat \<Rightarrow> bool" where
  "isLateNight now = (now \<ge> 22 \<or> now \<le> 4)"

definition fatigueFactor :: "rat \<Rightarrow> rat" where
  "fatigueFactor studied =
     (if studied \<ge> 4 then to_double (4 / 10)
      else if studied \<ge> 5 / 2 then to_double (6 / 10)
      else 1)"

definition timeFactor :: "rat \<Rightarrow> rat" where
  "timeFactor now = (if isLateNight now then 1 / 2 else 1)"

definition cognitiveStateFactor :: "rat \<Rightarrow> rat \<Rightarrow> rat" where
  "cognitiveStateFactor studied now = mul_d (fatigueFactor studied) (timeFactor now)"

definition highConfidence :: "int \<Rightarrow> bool" where
  "highConfidence fc = (fc \<ge> 75)"

definition lowConfidence :: "int \<Rightarrow> bool" where
  "lowConfidence fc = (fc \<le> 35)"

text \<open>
  \<open>getCramBenefit\<close> captures \<open>cognitiveStateFactor\<close>, \<open>lowConfidence\<close> and
  \<open>highConfidence\<close>. The three \<open>if\<close> statements on \<open>base\<close> run in sequence. The literals
  \<open>1.25\<close>, \<open>0.75\<close> and \<open>0.5\<close> are doubles as they stand; \<open>0.7\<close>, \<open>0.3\<close>, \<open>0.4\<close> and
  \<open>0.6\<close> are not, and the source's literal is the double nearest to each.
\<close>

definition getCramBenefit :: "rat \<Rightarrow> bool \<Rightarrow> bool \<Rightarrow> rat \<Rightarrow> rat" where
  "getCramBenefit csf low high hours =
     (let base = 0;
          base = (if hours \<ge> 1 then add_d base 20 else base);
          base = (if hours \<ge> 2 then add_d base 12 else base);
          base = (if hours \<ge> 3 then add_d base 8 else base);
          base = mul_d base csf
      in if low then mul_d base (5 / 4)
         else if high then mul_d base (3 / 4)
         else base)"

definition getSleepBenefit :: "rat \<Rightarrow> rat" where
  "getSleepBenefit sleepHours =
     (if sleepHours \<ge> optimalSleep then 25
      else if sleepHours \<ge> minSleepNeeded then 15
      else if sleepHours \<ge> 4 then 5
      else if sleepHours > 0 then - 25
      else - 40)"

definition sleepHoursS1 :: "rat \<Rightarrow> rat" where
  "sleepHoursS1 avail = max 0 (sub_d avail 1)"

definition local_boostS1 :: "rat \<Rightarrow> rat" where
  "local_boostS1 avail = getSleepBenefit (sleepHoursS1 avail)"

definition studyHoursS2 :: "rat \<Rightarrow> rat" where
  "studyHoursS2 avail =
     min maxProductiveStudy (max 0 (sub_d (sub_d avail minSleepNeeded) 1))"

definition sleepHoursS2 :: "rat \<Rightarrow> rat" where
  "sleepHoursS2 avail = max 0 (sub_d (sub_d avail (studyHoursS2 avail)) 1)"

definition local_cramBenefitS2 :: "rat \<Rightarrow> int \<Rightarrow> rat \<Rightarrow> rat" where
  "local_cramBenefitS2 csf fc avail =
     getCramBenefit csf (lowConfidence fc) (highConfidence fc) (studyHoursS2 avail)"

definition local_sleepBenefitS2 :: "rat \<Rightarrow> rat" where
  "local_sleepBenefitS2 avail = getSleepBenefit (sleepHoursS2 avail)"

definition local_boostS2 :: "rat \<Rightarrow> int \<Rightarrow> rat \<Rightarrow> rat" where
  "local_boostS2 csf fc avail =
     add_d (local_cramBenefitS2 csf fc avail) (local_sleepBenefitS2 avail)"

subsection \<open>\<open>parseTime\<close> and \<open>calculateRecommendation\<close>\<close>

text \<open>
  \<open>parseTime\<close> destructures the first two pieces of the split string. The result is
  \<open>None\<close> when a piece is missing or \<open>Number\<close> is \<open>None\<close> on it.
\<close>

definition parseTime :: "string \<Rightarrow> rat option" where
  "parseTime timeStr =
     (case map Number (split_colon timeStr) of
        Some hours # Some minutes # _ \<Rightarrow> Some (add_d hours (div_d minutes 60))
      | _ \<Rightarrow> None)"

text \<open>
  \<open>calculateRecommendation\<close> reads the component's state and ends with
  \<open>setResult\<close> and \<open>setStep\<close>, so it is a function from the state to the new state. It
  is \<open>None\<close> exactly when \<open>parseTime\<close> is \<open>None\<close> on one of the two times.
\<close>

definition calculateRecommendation :: "State \<Rightarrow> State option" where
  "calculateRecommendation s =
     (case (parseTime (currentTime s), parseTime (examTime s)) of
        (Some now, Some exam) \<Rightarrow>
          (let fc = finalConfidence (quizAnswers s) (confidence s);
               avail = local_availableHours now exam;
               csf = cognitiveStateFactor (hoursStudied s) now;
               sleep1 = sleepHoursS1 avail;
               boost1 = local_boostS1 avail;
               study2 = studyHoursS2 avail;
               sleep2 = sleepHoursS2 avail;
               cram2 = local_cramBenefitS2 csf fc avail;
               sben2 = local_sleepBenefitS2 avail;
               boost2 = local_boostS2 csf fc avail;
               (d, why, boost, plan, note) =
                 (if avail < 5 \<or> (boost1 > boost2 \<and> sleep1 \<ge> 6) then
                    (if avail < 5 then
                       (Sleep,
                        ''You have very limited time. Sleep deprivation will hurt you more than cramming will help.'',
                        max 0 boost1,
                        [''Go to sleep right now.'',
                         ''Focus on getting maximum rest.'',
                         ''Quick review of key formulas/concepts when you wake up.''],
                        ''With less than 5 hours, your brain needs rest more than new information. Sleep consolidates what you already know.'')
                     else
                       (Sleep,
                        ''Maximizing sleep yields the highest projected score boost. Your knowledge is best consolidated now.'',
                        max 0 boost1,
                        [''Sleep '' @ toString_int (Math_floor sleep1) @ '' hours minimum.'',
                         ''Limit screen time 30 mins before bed.'',
                         ''Light, focused review in the morning.''],
                        ''The consolidation benefit of '' @ toString_int (Math_floor sleep1)
                          @ '' hours of sleep (Boost: +''
                          @ toString_int (Math_round (getSleepBenefit sleep1))
                          @ ''%) outweighs the minimal gain from more studying.''))
                  else
                    (let finalStudy = div_d (of_int (Math_floor (mul_d study2 10))) 10;
                         finalSleep = div_d (of_int (Math_floor (mul_d sleep2 10))) 10
                     in (StrategicCram,
                         ''The Strategic Split maximizes your net gain by balancing crucial rest and targeted study.'',
                         max 0 boost2,
                         [''Study for '' @ toString_tenths finalStudy
                            @ '' hours. Focus ONLY on high-value/low-confidence topics.'',
                          ''Use active recall (practice problems, flashcards), not just reading.'',
                          ''Sleep '' @ toString_tenths finalSleep @ '' hours minimum.'',
                          ''Wake up early for quick review and proper breakfast.''],
                         ''Your current cognitive state is at ''
                           @ toString_int (Math_round (mul_d csf 100))
                           @ ''%. Focused encoding now (Boost: +''
                           @ toString_int (Math_round cram2)
                           @ ''%) combined with consolidation (Boost: +''
                           @ toString_int (Math_round sben2)
                           @ ''%) provides the optimal strategy.'')))
           in Some (s\<lparr>result := Some
                \<lparr>decision = d,
                 reasoning = why,
                 projectedBoost = Math_round boost,
                 actionPlan = plan,
                 scienceNote = note,
                 availableHours = div_d (of_int (Math_floor (mul_d avail 10))) 10,
                 effectiveStudyHours =
                   div_d (of_int (Math_floor
                     (mul_d (if d = StrategicCram then study2 else 0) 10))) 10,
                 cognitiveState = Math_round (mul_d csf 100),
                 adjustedConfidence = fc,
                 boostS1 = Math_round boost1,
                 boostS2 = Math_round boost2,
                 sleepBenefitS1 = Math_round (getSleepBenefit sleep1),
                 cramBenefitS2 = Math_round cram2,
                 sleepBenefitS2 = Math_round sben2\<rparr>,
               step := ''result''\<rparr>))
      | _ \<Rightarrow> None)"

text \<open>
  The value of an \<open>input\<close> element of type \<open>time\<close>, which is where the component gets
  \<open>currentTime\<close> and \<open>examTime\<close>: two digits of an hour from 00 to 23, a colon, two
  digits of a minute from 00 to 59.
\<close>

fun valid_time :: "string \<Rightarrow> bool" where
  "valid_time [h1, h2, c, m1, m2] =
     (c = CHR '':'' \<and>
      (case (digit_value h1, digit_value h2, digit_value m1, digit_value m2) of
         (Some a, Some b, Some d, Some e) \<Rightarrow> 10 * a + b \<le> 23 \<and> 10 * d + e \<le> 59
       | _ \<Rightarrow> False))"
| "valid_time _ = False"

text \<open>The state the component starts in (its \<open>useState\<close> initial values).\<close>

definition initialState :: State where
  "initialState =
     \<lparr>step = ''input'', examTime = ''09:00'', currentTime = ''22:00'', confidence = 50,
      hoursStudied = 0, quizAnswers = \<lparr>q1 = 0, q2 = 0, q3 = 0\<rparr>, result = None\<rparr>"

section \<open>Properties\<close>

subsection \<open>Powers of two and the exponent\<close>

lemma pow2_pos: "0 < pow2 e"
  by (simp add: pow2_def)

lemma pow2_add: "pow2 (a + b) = pow2 a * pow2 b"
  by (simp add: pow2_def power_int_add)

lemma pow2_diff: "pow2 (a - b) = pow2 a / pow2 b"
  by (simp add: pow2_def power_int_diff)

lemma pow2_nat: "pow2 (int n) = 2 ^ n"
  by (simp add: pow2_def)

lemma pow2_mono: "a \<le> b \<Longrightarrow> pow2 a \<le> pow2 b"
  by (simp add: pow2_def power_int_increasing)

lemma pow2_of_int: "0 \<le> e \<Longrightarrow> pow2 e = of_int (2 ^ nat e)"
  by (simp add: pow2_def power_int_def)

lemma quotient_of_pos:
  assumes "0 < x" and "quotient_of x = (p, q)"
  shows "0 < p \<and> 0 < q \<and> x = of_int p / of_int q"
proof -
  have q: "0 < q" using assms(2) by (rule quotient_of_denom_pos)
  have x: "x = of_int p / of_int q" using assms(2) by (rule quotient_of_div)
  have "0 < p"
  proof (rule ccontr)
    assume "\<not> 0 < p"
    then have "(of_int p :: rat) \<le> 0" by simp
    then have "x \<le> 0" unfolding x using q by (simp add: divide_nonpos_pos)
    with assms(1) show False by simp
  qed
  with q x show ?thesis by simp
qed

lemma ilog2_lower:
  assumes "0 < x"
  shows "pow2 (ilog2 x) \<le> x"
proof -
  obtain p q where pq: "quotient_of x = (p, q)" by (cases "quotient_of x")
  from quotient_of_pos [OF assms pq] have p: "0 < p" and q: "0 < q"
    and x: "x = of_int p / of_int q" by simp_all
  let ?d = "bitlen p - bitlen q"
  show ?thesis
  proof (cases "pow2 ?d \<le> x")
    case True
    then show ?thesis by (simp add: ilog2_def pq)
  next
    case False
    then have e: "ilog2 x = ?d - 1" by (simp add: ilog2_def pq)
    from bitlen_bounds [OF p] have lp: "(2::int) ^ nat (bitlen p - 1) \<le> p" by simp
    from bitlen_bounds [OF q] have uq: "q < (2::int) ^ nat (bitlen q)" by simp
    have bp: "1 \<le> bitlen p" using p by (simp add: bitlen_alt_def)
    have "pow2 (?d - 1) = pow2 (bitlen p - 1) / pow2 (bitlen q)"
      by (simp add: pow2_diff [symmetric] algebra_simps)
    also have "pow2 (bitlen p - 1) = of_int (2 ^ nat (bitlen p - 1))"
      using bp by (intro pow2_of_int) simp
    also have "pow2 (bitlen q) = of_int (2 ^ nat (bitlen q))"
      by (intro pow2_of_int) (rule bitlen_nonneg)
    also have "(of_int (2 ^ nat (bitlen p - 1)) :: rat) / of_int (2 ^ nat (bitlen q))
                 \<le> of_int p / of_int q"
    proof (rule frac_le)
      show "(0::rat) \<le> of_int p" using p by simp
      show "(of_int (2 ^ nat (bitlen p - 1)) :: rat) \<le> of_int p"
        using lp by (simp only: of_int_le_iff)
      show "(0::rat) < of_int q" using q by simp
      show "(of_int q :: rat) \<le> of_int (2 ^ nat (bitlen q))"
        using uq by (simp only: of_int_le_iff)
    qed
    finally have "pow2 (?d - 1) \<le> of_int p / of_int q" .
    from this [folded x] show ?thesis unfolding e .
  qed
qed

lemma ilog2_upper:
  assumes "0 < x"
  shows "x < pow2 (ilog2 x + 1)"
proof -
  obtain p q where pq: "quotient_of x = (p, q)" by (cases "quotient_of x")
  from quotient_of_pos [OF assms pq] have p: "0 < p" and q: "0 < q"
    and x: "x = of_int p / of_int q" by simp_all
  let ?d = "bitlen p - bitlen q"
  show ?thesis
  proof (cases "pow2 ?d \<le> x")
    case False
    then show ?thesis by (simp add: ilog2_def pq)
  next
    case True
    then have e: "ilog2 x = ?d" by (simp add: ilog2_def pq)
    from bitlen_bounds [OF p] have up: "p < (2::int) ^ nat (bitlen p)" by simp
    from bitlen_bounds [OF q] have lq: "(2::int) ^ nat (bitlen q - 1) \<le> q" by simp
    have bq: "1 \<le> bitlen q" using q by (simp add: bitlen_alt_def)
    have "of_int p / of_int q < (of_int (2 ^ nat (bitlen p)) :: rat) / of_int (2 ^ nat (bitlen q - 1))"
    proof (rule frac_less)
      show "(0::rat) \<le> of_int p" using p by simp
      show "(of_int p :: rat) < of_int (2 ^ nat (bitlen p))"
        using up by (simp only: of_int_less_iff)
      show "(0::rat) < of_int (2 ^ nat (bitlen q - 1))" by simp
      show "(of_int (2 ^ nat (bitlen q - 1)) :: rat) \<le> of_int q"
        using lq by (simp only: of_int_le_iff)
    qed
    also have "(of_int (2 ^ nat (bitlen p)) :: rat) = pow2 (bitlen p)"
      by (intro pow2_of_int [symmetric]) (rule bitlen_nonneg)
    also have "(of_int (2 ^ nat (bitlen q - 1)) :: rat) = pow2 (bitlen q - 1)"
      using bq by (intro pow2_of_int [symmetric]) simp
    also have "pow2 (bitlen p) / pow2 (bitlen q - 1) = pow2 (?d + 1)"
      by (simp add: pow2_diff [symmetric] algebra_simps)
    finally have "of_int p / of_int q < pow2 (?d + 1)" .
    from this [folded x] show ?thesis unfolding e .
  qed
qed

subsection \<open>Rounding to an integer\<close>

lemma round_even_cases:
  "round_even q = \<lfloor>q\<rfloor> \<or> (round_even q = \<lfloor>q\<rfloor> + 1 \<and> 1 / 2 \<le> q - of_int \<lfloor>q\<rfloor>)"
  by (auto simp: round_even_def Let_def)

lemma round_even_floor_half: "round_even q = \<lfloor>q\<rfloor> \<Longrightarrow> q - of_int \<lfloor>q\<rfloor> \<le> 1 / 2"
  by (auto simp: round_even_def Let_def split: if_splits)

lemma round_even_le:
  assumes "q \<le> of_int K"
  shows "round_even q \<le> K"
proof -
  have f: "\<lfloor>q\<rfloor> \<le> K" using assms by (simp add: floor_le_iff)
  from round_even_cases [of q] show ?thesis
  proof
    assume "round_even q = \<lfloor>q\<rfloor>"
    with f show ?thesis by simp
  next
    assume a: "round_even q = \<lfloor>q\<rfloor> + 1 \<and> 1 / 2 \<le> q - of_int \<lfloor>q\<rfloor>"
    then have "of_int \<lfloor>q\<rfloor> < q" by linarith
    with assms have "(of_int \<lfloor>q\<rfloor> :: rat) < of_int K" by linarith
    then have "\<lfloor>q\<rfloor> < K" by (simp only: of_int_less_iff)
    with a show ?thesis by simp
  qed
qed

lemma round_even_ge:
  assumes "of_int K \<le> q"
  shows "K \<le> round_even q"
proof -
  have "K \<le> \<lfloor>q\<rfloor>" using assms by (simp add: le_floor_iff)
  with round_even_cases [of q] show ?thesis by auto
qed

lemma round_even_err: "\<bar>of_int (round_even q) - q\<bar> \<le> 1 / 2"
proof -
  have fl: "of_int \<lfloor>q\<rfloor> \<le> q" "q < of_int \<lfloor>q\<rfloor> + 1" by linarith+
  from round_even_cases [of q] show ?thesis
  proof
    assume a: "round_even q = \<lfloor>q\<rfloor>"
    from round_even_floor_half [OF a] fl show ?thesis unfolding a by linarith
  next
    assume a: "round_even q = \<lfloor>q\<rfloor> + 1 \<and> 1 / 2 \<le> q - of_int \<lfloor>q\<rfloor>"
    then have "of_int (round_even q) = (of_int \<lfloor>q\<rfloor> :: rat) + 1" by simp
    with a fl show ?thesis by linarith
  qed
qed

subsection \<open>Rounding to a double\<close>

lemma to_double_zero: "to_double 0 = 0"
  by (simp add: to_double_def)

lemma to_double_unfold:
  "x \<noteq> 0 \<Longrightarrow>
   to_double x = of_int (round_even (x / pow2 (ilog2 \<bar>x\<bar> - 52))) * pow2 (ilog2 \<bar>x\<bar> - 52)"
  by (simp add: to_double_def Let_def)

lemma pow2_split_52: "pow2 e = of_int (2 ^ 52) * pow2 (e - 52)"
proof -
  have "pow2 e = pow2 (52 + (e - 52))" by simp
  also have "\<dots> = pow2 52 * pow2 (e - 52)" by (rule pow2_add)
  also have "pow2 52 = of_int (2 ^ 52)" by (simp add: pow2_def)
  finally show ?thesis .
qed

lemma to_double_pos_ge:
  assumes "0 < x"
  shows "pow2 (ilog2 x) \<le> to_double x"
proof -
  let ?u = "pow2 (ilog2 x - 52)"
  have u: "0 < ?u" by (rule pow2_pos)
  have "of_int (2 ^ 52) * ?u \<le> x"
    using ilog2_lower [OF assms] by (simp only: pow2_split_52 [symmetric])
  then have "of_int (2 ^ 52) \<le> x / ?u" using u by (simp add: le_divide_eq)
  then have "2 ^ 52 \<le> round_even (x / ?u)" by (rule round_even_ge)
  then have "(of_int (2 ^ 52) :: rat) \<le> of_int (round_even (x / ?u))"
    by (simp only: of_int_le_iff)
  then have "of_int (2 ^ 52) * ?u \<le> of_int (round_even (x / ?u)) * ?u"
    using u by (intro mult_right_mono) simp_all
  moreover have "to_double x = of_int (round_even (x / ?u)) * ?u"
    using assms by (simp add: to_double_unfold)
  ultimately show ?thesis by (simp only: pow2_split_52 [symmetric])
qed

lemma to_double_neg_le:
  assumes "x < 0"
  shows "to_double x \<le> - pow2 (ilog2 \<bar>x\<bar>)"
proof -
  define u where "u = pow2 (ilog2 \<bar>x\<bar> - 52)"
  define c :: rat where "c = of_int (2 ^ 52)"
  have u: "0 < u" unfolding u_def by (rule pow2_pos)
  have ax: "0 < \<bar>x\<bar>" using assms by simp
  have split: "pow2 (ilog2 \<bar>x\<bar>) = c * u" unfolding u_def c_def by (rule pow2_split_52)
  have "c * u \<le> \<bar>x\<bar>" using ilog2_lower [OF ax] by (simp only: split)
  then have "x \<le> (- c) * u" using assms by linarith
  then have "x / u \<le> - c" by (simp only: pos_divide_le_eq [OF u])
  then have "x / u \<le> of_int (- (2 ^ 52))" unfolding c_def by simp
  then have "round_even (x / u) \<le> - (2 ^ 52)" by (rule round_even_le)
  then have "(of_int (round_even (x / u)) :: rat) \<le> of_int (- (2 ^ 52))"
    by (simp only: of_int_le_iff)
  then have "(of_int (round_even (x / u)) :: rat) \<le> - c" unfolding c_def by simp
  then have "of_int (round_even (x / u)) * u \<le> (- c) * u"
    using u by (intro mult_right_mono) simp_all
  moreover have "to_double x = of_int (round_even (x / u)) * u"
    unfolding u_def using assms by (intro to_double_unfold) simp
  ultimately show ?thesis by (simp add: split)
qed

lemma to_double_pos: "0 < x \<Longrightarrow> 0 < to_double x"
  using to_double_pos_ge [of x] pow2_pos [of "ilog2 x"] by simp

lemma to_double_neg: "x < 0 \<Longrightarrow> to_double x < 0"
  using to_double_neg_le [of x] pow2_pos [of "ilog2 \<bar>x\<bar>"] by simp

lemma to_double_nonneg: "0 \<le> x \<Longrightarrow> 0 \<le> to_double x"
  using to_double_pos [of x] by (cases "x = 0") (simp_all add: to_double_zero)

text \<open>A number \<open>M * pow2 j\<close> on the grid of the doubles around \<open>x\<close> is not crossed.\<close>

lemma on_grid:
  assumes "e - 52 \<le> j"
  shows "of_int M * pow2 j / pow2 (e - 52) = of_int (M * 2 ^ nat (j - (e - 52)))"
proof -
  have "pow2 j / pow2 (e - 52) = pow2 (j - (e - 52))" by (rule pow2_diff [symmetric])
  also have "\<dots> = of_int (2 ^ nat (j - (e - 52)))" using assms by (intro pow2_of_int) simp
  finally have r: "pow2 j / pow2 (e - 52) = of_int (2 ^ nat (j - (e - 52)))" .
  have "of_int M * pow2 j / pow2 (e - 52) = of_int M * (pow2 j / pow2 (e - 52))" by simp
  also have "\<dots> = of_int M * of_int (2 ^ nat (j - (e - 52)))" by (simp only: r)
  also have "\<dots> = of_int (M * 2 ^ nat (j - (e - 52)))" by (simp only: of_int_mult)
  finally show ?thesis .
qed

lemma to_double_le_grid:
  assumes "x \<noteq> 0" and "x \<le> of_int M * pow2 j" and "ilog2 \<bar>x\<bar> - 52 \<le> j"
  shows "to_double x \<le> of_int M * pow2 j"
proof -
  let ?u = "pow2 (ilog2 \<bar>x\<bar> - 52)"
  let ?K = "M * 2 ^ nat (j - (ilog2 \<bar>x\<bar> - 52))"
  have u: "0 < ?u" by (rule pow2_pos)
  have K: "of_int M * pow2 j = of_int ?K * ?u"
    using on_grid [OF assms(3), of M] u by (simp add: field_simps)
  have "x / ?u \<le> of_int ?K" using assms(2) u unfolding K by (simp add: divide_le_eq)
  then have "round_even (x / ?u) \<le> ?K" by (rule round_even_le)
  then have "(of_int (round_even (x / ?u)) :: rat) \<le> of_int ?K" by (simp only: of_int_le_iff)
  then have "of_int (round_even (x / ?u)) * ?u \<le> of_int ?K * ?u"
    using u by (intro mult_right_mono) simp_all
  then show ?thesis unfolding K by (simp only: to_double_unfold [OF assms(1)])
qed

lemma to_double_ge_grid:
  assumes "x \<noteq> 0" and "of_int M * pow2 j \<le> x" and "ilog2 \<bar>x\<bar> - 52 \<le> j"
  shows "of_int M * pow2 j \<le> to_double x"
proof -
  let ?u = "pow2 (ilog2 \<bar>x\<bar> - 52)"
  let ?K = "M * 2 ^ nat (j - (ilog2 \<bar>x\<bar> - 52))"
  have u: "0 < ?u" by (rule pow2_pos)
  have K: "of_int M * pow2 j = of_int ?K * ?u"
    using on_grid [OF assms(3), of M] u by (simp add: field_simps)
  have "of_int ?K \<le> x / ?u" using assms(2) u unfolding K by (simp add: le_divide_eq)
  then have "?K \<le> round_even (x / ?u)" by (rule round_even_ge)
  then have "(of_int ?K :: rat) \<le> of_int (round_even (x / ?u))" by (simp only: of_int_le_iff)
  then have "of_int ?K * ?u \<le> of_int (round_even (x / ?u)) * ?u"
    using u by (intro mult_right_mono) simp_all
  then show ?thesis unfolding K by (simp only: to_double_unfold [OF assms(1)])
qed

lemma below_grid:
  assumes "\<bar>M\<bar> < 2 ^ 53" and "j < e - 52"
  shows "\<bar>of_int M * pow2 j\<bar> < pow2 e"
proof -
  have "(of_int \<bar>M\<bar> :: rat) < of_int (2 ^ 53)" using assms(1) by (simp only: of_int_less_iff)
  then have "of_int \<bar>M\<bar> * pow2 j < of_int (2 ^ 53) * pow2 j"
    using pow2_pos [of j] by (intro mult_strict_right_mono)
  also have "of_int (2 ^ 53) * pow2 j = pow2 (53 + j)"
  proof -
    have "pow2 53 = of_int (2 ^ 53)" by (simp add: pow2_def)
    then show ?thesis by (simp only: pow2_add)
  qed
  also have "pow2 (53 + j) \<le> pow2 e" using assms(2) by (intro pow2_mono) simp
  finally show ?thesis using pow2_pos [of j] by (simp add: abs_mult)
qed

text \<open>
  Rounding does not cross a double: for \<open>y = M * pow2 j\<close> with \<open>\<bar>M\<bar> < 2 ^ 53\<close>, from
  \<open>x \<le> y\<close> follows \<open>to_double x \<le> y\<close>, and from \<open>y \<le> x\<close> follows \<open>y \<le> to_double x\<close>.
\<close>

lemma to_double_le:
  assumes "x \<le> of_int M * pow2 j" and "\<bar>M\<bar> < 2 ^ 53"
  shows "to_double x \<le> of_int M * pow2 j"
proof (cases "x = 0")
  case True
  with assms(1) show ?thesis by (simp add: to_double_zero)
next
  case False
  show ?thesis
  proof (cases "ilog2 \<bar>x\<bar> - 52 \<le> j")
    case True
    from False assms(1) True show ?thesis by (rule to_double_le_grid)
  next
    case far: False
    then have small: "\<bar>of_int M * pow2 j\<bar> < pow2 (ilog2 \<bar>x\<bar>)"
      using assms(2) by (intro below_grid) simp_all
    show ?thesis
    proof (cases "0 < x")
      case True
      then have "pow2 (ilog2 \<bar>x\<bar>) \<le> x" using ilog2_lower [of x] by simp
      with small assms(1) show ?thesis by linarith
    next
      case neg: False
      with False have "x < 0" by simp
      from to_double_neg_le [OF this] small show ?thesis by linarith
    qed
  qed
qed

lemma to_double_ge:
  assumes "of_int M * pow2 j \<le> x" and "\<bar>M\<bar> < 2 ^ 53"
  shows "of_int M * pow2 j \<le> to_double x"
proof (cases "x = 0")
  case True
  with assms(1) show ?thesis by (simp add: to_double_zero)
next
  case False
  show ?thesis
  proof (cases "ilog2 \<bar>x\<bar> - 52 \<le> j")
    case True
    from False assms(1) True show ?thesis by (rule to_double_ge_grid)
  next
    case far: False
    then have small: "\<bar>of_int M * pow2 j\<bar> < pow2 (ilog2 \<bar>x\<bar>)"
      using assms(2) by (intro below_grid) simp_all
    show ?thesis
    proof (cases "0 < x")
      case True
      then have "\<bar>x\<bar> = x" by simp
      with small have "\<bar>of_int M * pow2 j\<bar> < pow2 (ilog2 x)" by simp
      with to_double_pos_ge [OF True] show ?thesis by linarith
    next
      case neg: False
      with False have x: "x < 0" by simp
      then have "pow2 (ilog2 \<bar>x\<bar>) \<le> - x" using ilog2_lower [of "\<bar>x\<bar>"] by simp
      with small assms(1) show ?thesis by linarith
    qed
  qed
qed

lemma to_double_exact:
  assumes "\<bar>M\<bar> < 2 ^ 53"
  shows "to_double (of_int M * pow2 j) = of_int M * pow2 j"
  using to_double_le [OF order_refl assms] to_double_ge [OF order_refl assms]
  by (rule antisym)

lemma to_double_le_int: "x \<le> of_int M \<Longrightarrow> \<bar>M\<bar> < 2 ^ 53 \<Longrightarrow> to_double x \<le> of_int M"
  using to_double_le [of x M 0] by (simp add: pow2_def)

lemma to_double_ge_int: "of_int M \<le> x \<Longrightarrow> \<bar>M\<bar> < 2 ^ 53 \<Longrightarrow> of_int M \<le> to_double x"
  using to_double_ge [of M 0 x] by (simp add: pow2_def)

lemma to_double_int: "\<bar>M\<bar> < 2 ^ 53 \<Longrightarrow> to_double (of_int M) = of_int M"
  using to_double_exact [of M 0] by (simp add: pow2_def)

text \<open>The relative error of one rounding is at most \<open>2 ^ - 53\<close>.\<close>

lemma to_double_err: "\<bar>to_double x - x\<bar> \<le> \<bar>x\<bar> / 2 ^ 53"
proof (cases "x = 0")
  case True
  then show ?thesis by (simp add: to_double_zero)
next
  case False
  let ?e = "ilog2 \<bar>x\<bar>"
  let ?u = "pow2 (?e - 52)"
  let ?n = "round_even (x / ?u)"
  have u: "0 < ?u" by (rule pow2_pos)
  have "to_double x - x = (of_int ?n - x / ?u) * ?u"
    using False u by (simp add: to_double_unfold field_simps)
  then have "\<bar>to_double x - x\<bar> = \<bar>of_int ?n - x / ?u\<bar> * ?u"
    using u by (simp add: abs_mult)
  also have "\<dots> \<le> (1 / 2) * ?u"
    using u round_even_err [of "x / ?u"] by (simp add: mult_right_mono)
  also have "(1 / 2) * ?u = pow2 ?e / 2 ^ 53"
    by (simp add: pow2_split_52 [of ?e])
  also have "\<dots> \<le> \<bar>x\<bar> / 2 ^ 53"
    using ilog2_lower [of "\<bar>x\<bar>"] False by (simp add: divide_right_mono)
  finally show ?thesis .
qed

subsection \<open>Facts about the library functions\<close>

lemma Math_round_of_int: "Math_round (of_int n) = n"
  unfolding Math_round_def by (rule floor_unique) simp_all

lemma Math_round_numeral: "Math_round (numeral k) = numeral k"
  using Math_round_of_int [of "numeral k"] by simp

lemma Math_round_nonneg: "0 \<le> x \<Longrightarrow> 0 \<le> Math_round x"
  unfolding Math_round_def by simp


subsection \<open>Facts about the time strings\<close>

lemma digit_value_colon: "digit_value c = Some d \<Longrightarrow> c \<noteq> CHR '':''"
  by (auto simp: digit_value_def Let_def)

lemma parseTime_digits:
  assumes "digit_value h1 = Some a" "digit_value h2 = Some b"
    "digit_value m1 = Some d" "digit_value m2 = Some e"
  shows "parseTime [h1, h2, CHR '':'', m1, m2]
           = Some (add_d (to_double (of_nat (10 * a + b)))
                         (div_d (to_double (of_nat (10 * d + e))) 60))"
  using assms digit_value_colon [of h1] digit_value_colon [of h2]
    digit_value_colon [of m1] digit_value_colon [of m2]
  by (simp add: parseTime_def Number_def)

lemma to_double_small_nat:
  assumes "n \<le> 59"
  shows "to_double (of_nat n) = of_nat n"
proof -
  have "\<bar>int n\<bar> < 2 ^ 53" using assms by simp
  from to_double_int [OF this] show ?thesis by simp
qed

lemma parseTime_valid:
  assumes "valid_time str"
  shows "\<exists>h m. h \<le> 23 \<and> m \<le> 59 \<and>
           parseTime str = Some (add_d (of_nat h) (div_d (of_nat m) 60))"
  using assms
proof (cases str rule: valid_time.cases)
  case (1 h1 h2 c m1 m2)
  with assms obtain a b d e where dv: "digit_value h1 = Some a" "digit_value h2 = Some b"
    "digit_value m1 = Some d" "digit_value m2 = Some e" and c: "c = CHR '':''"
    and le: "10 * a + b \<le> 23" "10 * d + e \<le> 59"
    by (auto split: option.splits)
  have "to_double (of_nat (10 * a + b)) = of_nat (10 * a + b)"
    using le(1) by (intro to_double_small_nat) simp
  moreover have "to_double (of_nat (10 * d + e)) = of_nat (10 * d + e)"
    using le(2) by (intro to_double_small_nat)
  ultimately have "parseTime str
      = Some (add_d (of_nat (10 * a + b)) (div_d (of_nat (10 * d + e)) 60))"
    using parseTime_digits [OF dv] 1 c by simp
  with le show ?thesis by blast
qed simp_all

text \<open>
  The double of a clock time \<open>h:m\<close> lies between 0 and \<open>23 + 63/64\<close>, and within
  \<open>25 / 2 ^ 53\<close> of \<open>(60 * h + m) / 60\<close>.
\<close>

lemma clock_double:
  fixes h m :: nat
  assumes "h \<le> 23" and "m \<le> 59"
  defines "t \<equiv> add_d (of_nat h) (div_d (of_nat m) 60)"
  shows "0 \<le> t" and "t \<le> 1535 / 64"
    and "\<bar>t - of_nat (60 * h + m) / 60\<bar> \<le> 25 / 2 ^ 53"
proof -
  define f where "f = div_d (of_nat m) 60"
  define eps :: rat where "eps = 1 / 2 ^ 53"
  have eps: "0 \<le> eps" unfolding eps_def by simp
  have err: "\<bar>to_double x - x\<bar> \<le> \<bar>x\<bar> * eps" for x
    using to_double_err [of x] unfolding eps_def by simp
  have hr: "(of_nat h :: rat) \<le> 23" using assms(1) by (metis of_nat_le_iff of_nat_numeral)
  have mr: "(of_nat m :: rat) \<le> 59" using assms(2) by (metis of_nat_le_iff of_nat_numeral)
  have h0: "(0 :: rat) \<le> of_nat h" and m0: "(0 :: rat) \<le> of_nat m" by simp_all
  have f0: "0 \<le> f" unfolding f_def div_d_def using m0 by (intro to_double_nonneg) simp
  have "of_nat m / 60 \<le> of_int 63 * pow2 (- 6)" using mr by (simp add: pow2_def)
  then have "f \<le> of_int 63 * pow2 (- 6)"
    unfolding f_def div_d_def by (rule to_double_le) simp
  then have f1: "f \<le> 63 / 64" by (simp add: pow2_def)
  have m1: "\<bar>of_nat m / 60 :: rat\<bar> \<le> 1" using m0 mr by simp
  have "\<bar>f - of_nat m / 60\<bar> \<le> \<bar>of_nat m / 60\<bar> * eps"
    unfolding f_def div_d_def by (rule err)
  also have "\<dots> \<le> 1 * eps" using m1 eps by (rule mult_right_mono)
  finally have fe: "\<bar>f - of_nat m / 60\<bar> \<le> eps" by simp
  have t: "t = to_double (of_nat h + f)" unfolding t_def f_def add_d_def ..
  show t0: "0 \<le> t" unfolding t using h0 f0 by (intro to_double_nonneg) simp
  have "of_nat h + f \<le> of_int 1535 * pow2 (- 6)" using hr f1 by (simp add: pow2_def)
  then have "t \<le> of_int 1535 * pow2 (- 6)" unfolding t by (rule to_double_le) simp
  then show "t \<le> 1535 / 64" by (simp add: pow2_def)
  have hf: "\<bar>of_nat h + f\<bar> \<le> 24" using h0 f0 hr f1 by linarith
  have "\<bar>t - (of_nat h + f)\<bar> \<le> \<bar>of_nat h + f\<bar> * eps"
    unfolding t by (rule err)
  also have "\<dots> \<le> 24 * eps" using hf eps by (rule mult_right_mono)
  finally have te: "\<bar>t - (of_nat h + f)\<bar> \<le> 24 * eps" .
  have eq: "of_nat (60 * h + m) / 60 = (of_nat h :: rat) + of_nat m / 60" by simp
  have "\<bar>t - of_nat (60 * h + m) / 60\<bar> \<le> 25 * eps"
    unfolding eq using te fe by linarith
  then show "\<bar>t - of_nat (60 * h + m) / 60\<bar> \<le> 25 / 2 ^ 53"
    unfolding eps_def by simp
qed

lemma clock_unique:
  fixes h m h' m' :: nat
  assumes "m \<le> 59" and "m' \<le> 59" and "60 * h' + m' = 60 * h + m"
  shows "h' = h \<and> m' = m"
proof -
  have "(60 * h' + m') div 60 = h'" using assms(2) by simp
  moreover have "(60 * h + m) div 60 = h" using assms(1) by simp
  ultimately have "h' = h" using assms(3) by simp
  with assms(3) show ?thesis by simp
qed

lemma local_availableHours_clock:
  fixes h m h' m' :: nat
  assumes "h \<le> 23" "m \<le> 59" "h' \<le> 23" "m' \<le> 59"
  defines "now \<equiv> add_d (of_nat h) (div_d (of_nat m) 60)"
  defines "exam \<equiv> add_d (of_nat h') (div_d (of_nat m') 60)"
  shows "0 \<le> local_availableHours now exam \<and> local_availableHours now exam < 24"
proof -
  define A :: rat where "A = of_nat (60 * h + m) / 60"
  define A' :: rat where "A' = of_nat (60 * h' + m') / 60"
  define eps :: rat where "eps = 25 / 2 ^ 53"
  have eps: "eps \<le> 1 / 100000" unfolding eps_def by simp
  note n = clock_double [OF assms(1,2), folded now_def A_def eps_def]
  note e = clock_double [OF assms(3,4), folded exam_def A'_def eps_def]
  define d where "d = sub_d exam now"
  have d: "d = to_double (exam - now)" unfolding d_def sub_d_def ..
  have "exam - now \<le> 1535 / 64" using n(1) e(2) by linarith
  then have up: "exam - now \<le> of_int 1535 * pow2 (- 6)" by (simp add: pow2_def)
  have "- (1535 / 64) \<le> exam - now" using n(2) e(1) by linarith
  then have lo: "of_int (- 1535) * pow2 (- 6) \<le> exam - now" by (simp add: pow2_def)
  have dup: "d \<le> 1535 / 64"
    using to_double_le [OF up] unfolding d by (simp add: pow2_def)
  have dlo: "- (1535 / 64) \<le> d"
    using to_double_ge [OF lo] unfolding d by (simp add: pow2_def)
  show ?thesis
  proof (cases "d < 0")
    case False
    then have "local_availableHours now exam = d"
      by (simp add: local_availableHours_def d_def Let_def)
    with False dup show ?thesis by simp
  next
    case True
    then have a: "local_availableHours now exam = to_double (d + 24)"
      by (simp add: local_availableHours_def d_def Let_def add_d_def)
    have neg: "exam - now < 0"
    proof (rule ccontr)
      assume "\<not> exam - now < 0"
      then have "0 \<le> to_double (exam - now)" by (intro to_double_nonneg) simp
      with True d show False by simp
    qed
    have lt: "60 * h' + m' < 60 * h + m"
    proof (rule ccontr)
      assume "\<not> 60 * h' + m' < 60 * h + m"
      then consider "60 * h' + m' = 60 * h + m" | "60 * h + m + 1 \<le> 60 * h' + m'"
        by linarith
      then show False
      proof cases
        case 1
        with assms(2,4) have "h' = h \<and> m' = m" by (intro clock_unique)
        then have "exam = now" unfolding exam_def now_def by simp
        with neg show False by simp
      next
        case 2
        then have "(of_nat (60 * h + m + 1) :: rat) \<le> of_nat (60 * h' + m')"
          by (simp only: of_nat_le_iff)
        then have "(of_nat (60 * h + m + 1) :: rat) / 60 \<le> of_nat (60 * h' + m') / 60"
          by (rule divide_right_mono) simp
        then have "A + 1 / 60 \<le> A'"
          unfolding A_def A'_def by (simp only: of_nat_add of_nat_1 add_divide_distrib)
        with n(3) e(3) neg eps show False by linarith
      qed
    qed
    then have "60 * h' + m' + 1 \<le> 60 * h + m" by simp
    then have "(of_nat (60 * h' + m' + 1) :: rat) \<le> of_nat (60 * h + m)"
      by (simp only: of_nat_le_iff)
    then have "(of_nat (60 * h' + m' + 1) :: rat) / 60 \<le> of_nat (60 * h + m) / 60"
      by (rule divide_right_mono) simp
    then have "A' + 1 / 60 \<le> A"
      unfolding A_def A'_def by (simp only: of_nat_add of_nat_1 add_divide_distrib)
    with n(3) e(3) eps have "exam - now \<le> - (1 / 64)" by linarith
    then have "exam - now \<le> of_int (- 1) * pow2 (- 6)" by (simp add: pow2_def)
    from to_double_le [OF this] have d64: "d \<le> - (1 / 64)"
      unfolding d by (simp add: pow2_def)
    have "1 / 64 \<le> d + 24" using dlo by linarith
    then have "of_int 1 * pow2 (- 6) \<le> d + 24" by (simp add: pow2_def)
    from to_double_ge [OF this] have r1: "1 / 64 \<le> to_double (d + 24)"
      by (simp add: pow2_def)
    have "d + 24 \<le> 1535 / 64" using d64 by linarith
    then have "d + 24 \<le> of_int 1535 * pow2 (- 6)" by (simp add: pow2_def)
    from to_double_le [OF this] have r2: "to_double (d + 24) \<le> 1535 / 64"
      by (simp add: pow2_def)
    from r1 r2 show ?thesis unfolding a by simp
  qed
qed

subsection \<open>Facts about the local values\<close>

lemma to_double_err_tenth:
  assumes "0 \<le> x"
  shows "x - x / 10 \<le> to_double x" and "to_double x \<le> x + x / 10"
proof -
  have "x / 2 ^ 53 \<le> x / 10" using assms by (intro divide_left_mono) simp_all
  moreover have "\<bar>to_double x - x\<bar> \<le> x / 2 ^ 53"
    using to_double_err [of x] assms by simp
  ultimately have "\<bar>to_double x - x\<bar> \<le> x / 10" by (rule order_trans [rotated])
  then show "x - x / 10 \<le> to_double x" and "to_double x \<le> x + x / 10"
    by linarith+
qed

lemma mul_d_three_quarters:
  assumes "0 < b"
  shows "mul_d b (3 / 4) < b"
proof -
  define x where "x = b * (3 / 4)"
  have "0 \<le> x" unfolding x_def using assms by simp
  from to_double_err_tenth(2) [OF this] have "to_double x \<le> x + x / 10" .
  moreover have "x + x / 10 < b" unfolding x_def using assms by simp
  ultimately show ?thesis unfolding mul_d_def x_def by linarith
qed

lemma mul_d_five_quarters:
  assumes "0 < b"
  shows "b < mul_d b (5 / 4)"
proof -
  define x where "x = b * (5 / 4)"
  have "0 \<le> x" unfolding x_def using assms by simp
  from to_double_err_tenth(1) [OF this] have "x - x / 10 \<le> to_double x" .
  moreover have "b < x - x / 10" unfolding x_def using assms by simp
  ultimately show ?thesis unfolding mul_d_def x_def by linarith
qed

lemma cognitiveStateFactor_pos: "0 < cognitiveStateFactor studied now"
proof -
  have "0 < fatigueFactor studied" by (simp add: fatigueFactor_def to_double_pos)
  moreover have "0 < timeFactor now" by (simp add: timeFactor_def)
  ultimately have "0 < fatigueFactor studied * timeFactor now" by simp
  then show ?thesis unfolding cognitiveStateFactor_def mul_d_def by (rule to_double_pos)
qed

lemma tier_sums: "add_d 0 20 = 20" "add_d 20 12 = 32" "add_d 32 8 = 40"
  using to_double_int [of 20] to_double_int [of 32] to_double_int [of 40]
  by (simp_all add: add_d_def)

lemma getCramBenefit_below:
  "hours < 1 \<Longrightarrow> getCramBenefit csf low high hours = 0"
  by (simp add: getCramBenefit_def mul_d_def to_double_zero)

lemma getCramBenefit_tiers:
  assumes "1 \<le> hours"
  shows "\<exists>B. 0 < B \<and> (\<forall>low high. getCramBenefit csf low high hours =
            (if low then mul_d (mul_d B csf) (5 / 4)
             else if high then mul_d (mul_d B csf) (3 / 4)
             else mul_d B csf))"
proof -
  consider "hours < 2" | "2 \<le> hours" "hours < 3" | "3 \<le> hours" by linarith
  then show ?thesis
  proof cases
    case 1
    with assms have "\<forall>low high. getCramBenefit csf low high hours =
            (if low then mul_d (mul_d 20 csf) (5 / 4)
             else if high then mul_d (mul_d 20 csf) (3 / 4)
             else mul_d 20 csf)"
      by (simp add: getCramBenefit_def tier_sums)
    then show ?thesis by (intro exI [of _ 20]) simp
  next
    case 2
    with assms have "\<forall>low high. getCramBenefit csf low high hours =
            (if low then mul_d (mul_d 32 csf) (5 / 4)
             else if high then mul_d (mul_d 32 csf) (3 / 4)
             else mul_d 32 csf)"
      by (simp add: getCramBenefit_def tier_sums)
    then show ?thesis by (intro exI [of _ 32]) simp
  next
    case 3
    with assms have "\<forall>low high. getCramBenefit csf low high hours =
            (if low then mul_d (mul_d 40 csf) (5 / 4)
             else if high then mul_d (mul_d 40 csf) (3 / 4)
             else mul_d 40 csf)"
      by (simp add: getCramBenefit_def tier_sums)
    then show ?thesis by (intro exI [of _ 40]) simp
  qed
qed

lemma getCramBenefit_order:
  assumes "1 \<le> hours" and "0 < csf"
  shows "getCramBenefit csf False True hours < getCramBenefit csf False False hours"
    and "getCramBenefit csf False False hours < getCramBenefit csf True high hours"
proof -
  from getCramBenefit_tiers [OF assms(1), of csf] obtain B where B: "0 < B"
    and g: "\<And>low high. getCramBenefit csf low high hours =
            (if low then mul_d (mul_d B csf) (5 / 4)
             else if high then mul_d (mul_d B csf) (3 / 4)
             else mul_d B csf)" by blast
  have "0 < B * csf" using B assms(2) by simp
  then have b: "0 < mul_d B csf" unfolding mul_d_def by (rule to_double_pos)
  show "getCramBenefit csf False True hours < getCramBenefit csf False False hours"
    using mul_d_three_quarters [OF b] by (simp add: g)
  show "getCramBenefit csf False False hours < getCramBenefit csf True high hours"
    using mul_d_five_quarters [OF b] by (simp add: g)
qed

lemma studyHoursS2_range: "0 \<le> studyHoursS2 avail \<and> studyHoursS2 avail \<le> 3"
  by (simp add: studyHoursS2_def maxProductiveStudy_def)

lemma getSleepBenefit_adequate:
  "6 \<le> sleepHours \<Longrightarrow> getSleepBenefit sleepHours = 15 \<or> getSleepBenefit sleepHours = 25"
  by (simp add: getSleepBenefit_def optimalSleep_def minSleepNeeded_def)

text \<open>\<open>Math.floor(x * 10) / 10\<close> of a double between 0 and 3 is between 0 and 3.\<close>

lemma tenths_range:
  assumes "0 \<le> x" and "x \<le> 3"
  defines "k \<equiv> Math_floor (mul_d x 10)"
  shows "0 \<le> k" and "k \<le> 30"
    and "0 \<le> div_d (of_int k) 10" and "div_d (of_int k) 10 \<le> 3"
proof -
  have "0 \<le> mul_d x 10" unfolding mul_d_def using assms(1) by (intro to_double_nonneg) simp
  then show k0: "0 \<le> k" unfolding k_def Math_floor_def by simp
  have "x * 10 \<le> of_int 30" using assms(2) by simp
  then have "mul_d x 10 \<le> of_int 30" unfolding mul_d_def by (rule to_double_le_int) simp
  then have "\<lfloor>mul_d x 10\<rfloor> \<le> \<lfloor>of_int 30 :: rat\<rfloor>" by (rule floor_mono)
  then show k30: "k \<le> 30" unfolding k_def Math_floor_def by simp
  have "(0 :: rat) \<le> of_int k / 10" using k0 by simp
  then show "0 \<le> div_d (of_int k) 10" unfolding div_d_def by (rule to_double_nonneg)
  have "(of_int k :: rat) \<le> of_int 30" using k30 by (simp only: of_int_le_iff)
  then have "(of_int k :: rat) / 10 \<le> of_int 3" by simp
  then show "div_d (of_int k) 10 \<le> 3"
    unfolding div_d_def using to_double_le_int [of "of_int k / 10" 3] by simp
qed

subsection \<open>The fields of the stored result\<close>

lemma calc_fields:
  assumes now: "parseTime (currentTime s) = Some now"
    and exam: "parseTime (examTime s) = Some exam"
  shows "\<exists>s' r. calculateRecommendation s = Some s' \<and> result s' = Some r \<and>
     decision r =
       (if local_availableHours now exam < 5 \<or>
           (local_boostS1 (local_availableHours now exam)
              > local_boostS2 (cognitiveStateFactor (hoursStudied s) now)
                  (finalConfidence (quizAnswers s) (confidence s)) (local_availableHours now exam)
            \<and> sleepHoursS1 (local_availableHours now exam) \<ge> 6)
        then Sleep else StrategicCram) \<and>
     projectedBoost r =
       Math_round (max 0 (if decision r = Sleep then local_boostS1 (local_availableHours now exam)
          else local_boostS2 (cognitiveStateFactor (hoursStudied s) now)
                  (finalConfidence (quizAnswers s) (confidence s)) (local_availableHours now exam))) \<and>
     effectiveStudyHours r =
       div_d (of_int (Math_floor (mul_d (if decision r = StrategicCram
          then studyHoursS2 (local_availableHours now exam) else 0) 10))) 10 \<and>
     adjustedConfidence r = finalConfidence (quizAnswers s) (confidence s)"
  unfolding calculateRecommendation_def now exam
  by (simp add: Let_def)

lemma calc_decision:
  assumes now: "parseTime (currentTime s) = Some now"
    and exam: "parseTime (examTime s) = Some exam"
  shows "map_option (map_option decision \<circ> result) (calculateRecommendation s) =
     Some (Some
       (if local_availableHours now exam < 5 \<or>
           (local_boostS1 (local_availableHours now exam)
              > local_boostS2 (cognitiveStateFactor (hoursStudied s) now)
                  (finalConfidence (quizAnswers s) (confidence s)) (local_availableHours now exam)
            \<and> sleepHoursS1 (local_availableHours now exam) \<ge> 6)
        then Sleep else StrategicCram))"
proof -
  from calc_fields [OF now exam] obtain s' r where
    "calculateRecommendation s = Some s'" "result s' = Some r"
    "decision r =
       (if local_availableHours now exam < 5 \<or>
           (local_boostS1 (local_availableHours now exam)
              > local_boostS2 (cognitiveStateFactor (hoursStudied s) now)
                  (finalConfidence (quizAnswers s) (confidence s)) (local_availableHours now exam)
            \<and> sleepHoursS1 (local_availableHours now exam) \<ge> 6)
        then Sleep else StrategicCram)" by blast
  then show ?thesis by simp
qed


subsection \<open>The blended confidence is close to the exact blend\<close>



subsection \<open>The decision rule\<close>

text \<open>
  C1. For every input with two valid clock times, \<open>calculateRecommendation\<close> stores a
  result, and its decision is \<open>Sleep\<close> if and only if \<open>availableHours < 5\<close>, or
  \<open>boostS1 > boostS2\<close> and \<open>sleepHoursS1 \<ge> 6\<close>; in every other case it is
  \<open>StrategicCram\<close>. In particular \<open>availableHours < 5\<close> gives \<open>Sleep\<close> whatever the
  other inputs are. \<open>availableHours\<close>, \<open>boostS1\<close>, \<open>boostS2\<close> and \<open>sleepHoursS1\<close> are the
  doubles the engine computes.
\<close>

theorem decision_rule:
  assumes "valid_time (currentTime s)" and "valid_time (examTime s)"
    and now: "parseTime (currentTime s) = Some now"
    and exam: "parseTime (examTime s) = Some exam"
  defines "avail \<equiv> local_availableHours now exam"
  defines "b1 \<equiv> local_boostS1 avail"
  defines "b2 \<equiv> local_boostS2 (cognitiveStateFactor (hoursStudied s) now)
                   (finalConfidence (quizAnswers s) (confidence s)) avail"
  shows "\<exists>s' r. calculateRecommendation s = Some s' \<and> result s' = Some r \<and>
     (decision r = Sleep \<longleftrightarrow> avail < 5 \<or> (b1 > b2 \<and> sleepHoursS1 avail \<ge> 6)) \<and>
     (decision r = StrategicCram \<longleftrightarrow> \<not> (avail < 5 \<or> (b1 > b2 \<and> sleepHoursS1 avail \<ge> 6))) \<and>
     (avail < 5 \<longrightarrow> decision r = Sleep)"
proof -
  from calc_fields [OF now exam] obtain s' r where
    c: "calculateRecommendation s = Some s'" "result s' = Some r"
    and d: "decision r = (if avail < 5 \<or> (b1 > b2 \<and> sleepHoursS1 avail \<ge> 6)
                          then Sleep else StrategicCram)"
    unfolding avail_def b1_def b2_def by blast
  from d have "(decision r = Sleep \<longleftrightarrow> avail < 5 \<or> (b1 > b2 \<and> sleepHoursS1 avail \<ge> 6)) \<and>
     (decision r = StrategicCram \<longleftrightarrow> \<not> (avail < 5 \<or> (b1 > b2 \<and> sleepHoursS1 avail \<ge> 6))) \<and>
     (avail < 5 \<longrightarrow> decision r = Sleep)"
    by (simp split: if_splits)
  with c show ?thesis by blast
qed

text \<open>
  The rule at 03:12 with the exam at 08:12. The two times are the doubles nearest to 3.2
  and 8.2, their difference in doubles is \<open>5 - 2 ^ - 50\<close>, which is less than 5, and the
  decision is \<open>Sleep\<close>.
\<close>

theorem decision_rule_witness:
  "valid_time ''03:12'' \<and> valid_time ''08:12'' \<and>
   parseTime ''03:12'' = Some (3602879701896397 / 1125899906842624) \<and>
   parseTime ''08:12'' = Some (2308094809027379 / 281474976710656) \<and>
   local_availableHours (3602879701896397 / 1125899906842624)
     (2308094809027379 / 281474976710656) = 5 - 1 / 2 ^ 50 \<and>
   (\<exists>s' r. calculateRecommendation
       \<lparr>step = ''quiz'', examTime = ''08:12'', currentTime = ''03:12'', confidence = 50,
        hoursStudied = 0, quizAnswers = \<lparr>q1 = 0, q2 = 0, q3 = 0\<rparr>, result = None\<rparr> = Some s'
     \<and> result s' = Some r \<and> decision r = Sleep)"
proof -
  let ?s = "\<lparr>step = ''quiz'', examTime = ''08:12'', currentTime = ''03:12'', confidence = 50,
        hoursStudied = 0, quizAnswers = \<lparr>q1 = 0, q2 = 0, q3 = 0\<rparr>, result = None\<rparr>"
  have v1: "valid_time (currentTime ?s)" by code_simp
  have v2: "valid_time (examTime ?s)" by code_simp
  have p1: "parseTime (currentTime ?s) = Some (3602879701896397 / 1125899906842624)"
    by code_simp
  have p2: "parseTime (examTime ?s) = Some (2308094809027379 / 281474976710656)"
    by code_simp
  have a: "local_availableHours (3602879701896397 / 1125899906842624)
     (2308094809027379 / 281474976710656) = 5 - 1 / 2 ^ 50" by code_simp
  have lt: "(5 - 1 / 2 ^ 50 :: rat) < 5" by simp
  from decision_rule [OF v1 v2 p1 p2] obtain s' r where
    c: "calculateRecommendation ?s = Some s'" "result s' = Some r"
    and i: "local_availableHours (3602879701896397 / 1125899906842624)
              (2308094809027379 / 281474976710656) < 5 \<longrightarrow> decision r = Sleep"
    by blast
  from i a lt have "decision r = Sleep" by (simp only:)
  with c have "\<exists>s' r. calculateRecommendation ?s = Some s' \<and> result s' = Some r
      \<and> decision r = Sleep" by blast
  with v1 v2 p1 p2 a show ?thesis by simp
qed

subsection \<open>The worked example\<close>

text \<open>
  C2. At 22:00 with the exam at 09:00, no hours studied, the slider at 50 and the three quiz
  answers 0: \<open>availableHours = 11\<close>, \<open>finalConfidence = 15\<close>, \<open>cognitiveStateFactor = 0.5\<close>,
  \<open>studyHoursS2 = 3\<close>, the cramming benefit is 25, \<open>sleepHoursS2 = 7\<close>, the sleep benefit
  of 7 hours is 15, \<open>boostS2 = 40\<close>, \<open>sleepHoursS1 = 10\<close>, \<open>boostS1 = 25\<close>, and the stored
  decision is \<open>StrategicCram\<close> with \<open>projectedBoost = 40\<close>.
\<close>

theorem worked_example:
  "parseTime ''22:00'' = Some 22 \<and> parseTime ''09:00'' = Some 9 \<and>
   local_availableHours 22 9 = 11 \<and>
   finalConfidence \<lparr>q1 = 0, q2 = 0, q3 = 0\<rparr> 50 = 15 \<and>
   cognitiveStateFactor 0 22 = 1 / 2 \<and>
   studyHoursS2 11 = 3 \<and>
   local_cramBenefitS2 (1 / 2) 15 11 = 25 \<and>
   sleepHoursS2 11 = 7 \<and>
   getSleepBenefit 7 = 15 \<and>
   local_sleepBenefitS2 11 = 15 \<and>
   local_boostS2 (1 / 2) 15 11 = 40 \<and>
   sleepHoursS1 11 = 10 \<and>
   local_boostS1 11 = 25 \<and>
   map_option (map_option (\<lambda>r. (decision r, projectedBoost r, availableHours r,
        adjustedConfidence r, cognitiveState r, effectiveStudyHours r, cramBenefitS2 r,
        sleepBenefitS2 r, boostS2 r, boostS1 r)) \<circ> result)
     (calculateRecommendation
        \<lparr>step = ''quiz'', examTime = ''09:00'', currentTime = ''22:00'', confidence = 50,
         hoursStudied = 0, quizAnswers = \<lparr>q1 = 0, q2 = 0, q3 = 0\<rparr>, result = None\<rparr>)
     = Some (Some (StrategicCram, 40, 11, 15, 50, 3, 25, 15, 40, 25))"
  by code_simp

subsection \<open>The projected boost\<close>

text \<open>
  C3. For every input with two valid clock times, the stored \<open>projectedBoost\<close> is at least
  0, and it is \<open>max(0, boost of the chosen scenario)\<close> rounded to the nearest integer, the
  boost being the double the engine computes for that scenario.
\<close>

theorem projectedBoost_clamped:
  assumes "valid_time (currentTime s)" and "valid_time (examTime s)"
    and now: "parseTime (currentTime s) = Some now"
    and exam: "parseTime (examTime s) = Some exam"
  defines "avail \<equiv> local_availableHours now exam"
  defines "b1 \<equiv> local_boostS1 avail"
  defines "b2 \<equiv> local_boostS2 (cognitiveStateFactor (hoursStudied s) now)
                   (finalConfidence (quizAnswers s) (confidence s)) avail"
  shows "\<exists>s' r. calculateRecommendation s = Some s' \<and> result s' = Some r \<and>
     0 \<le> projectedBoost r \<and>
     projectedBoost r = Math_round (max 0 (if decision r = Sleep then b1 else b2))"
proof -
  from calc_fields [OF now exam] obtain s' r where
    c: "calculateRecommendation s = Some s'" "result s' = Some r"
    and p: "projectedBoost r = Math_round (max 0 (if decision r = Sleep then b1 else b2))"
    unfolding avail_def b1_def b2_def by blast
  have "0 \<le> Math_round (max 0 (if decision r = Sleep then b1 else b2))"
    by (rule Math_round_nonneg) simp
  with c p show ?thesis by auto
qed

text \<open>
  From 04:09 to 16:09 with neutral confidence: the split leaves
  \<open>8 - 2 ^ - 49\<close> hours of sleep in doubles, worth 15, so its boost is 55 and 55 is stored.
  From 05:00 to 09:00 the chosen boost is \<open>- 25\<close> and 0 is stored.
\<close>

theorem projectedBoost_clamped_witness:
  "sleepHoursS2 (local_availableHours (2336242306698445 / 562949953421312)
      (2272910436938547 / 140737488355328)) = 8 - 1 / 2 ^ 49 \<and>
   (\<exists>s' r. calculateRecommendation
       \<lparr>step = ''quiz'', examTime = ''16:09'', currentTime = ''04:09'', confidence = 50,
        hoursStudied = 0, quizAnswers = \<lparr>q1 = 33, q2 = 33, q3 = 0\<rparr>, result = None\<rparr> = Some s'
     \<and> result s' = Some r \<and> decision r = StrategicCram \<and> projectedBoost r = 55) \<and>
   (\<exists>s' r. calculateRecommendation
       \<lparr>step = ''quiz'', examTime = ''09:00'', currentTime = ''05:00'', confidence = 50,
        hoursStudied = 0, quizAnswers = \<lparr>q1 = 0, q2 = 0, q3 = 0\<rparr>, result = None\<rparr> = Some s'
     \<and> result s' = Some r \<and> decision r = Sleep \<and> projectedBoost r = 0)"
proof -
  let ?s = "\<lparr>step = ''quiz'', examTime = ''16:09'', currentTime = ''04:09'', confidence = 50,
        hoursStudied = 0, quizAnswers = \<lparr>q1 = 33, q2 = 33, q3 = 0\<rparr>, result = None\<rparr>"
  let ?t = "\<lparr>step = ''quiz'', examTime = ''09:00'', currentTime = ''05:00'', confidence = 50,
        hoursStudied = 0, quizAnswers = \<lparr>q1 = 0, q2 = 0, q3 = 0\<rparr>, result = None\<rparr>"
  let ?n = "2336242306698445 / 562949953421312 :: rat"
  let ?e = "2272910436938547 / 140737488355328 :: rat"
  have v: "valid_time (currentTime ?s)" "valid_time (examTime ?s)"
    "valid_time (currentTime ?t)" "valid_time (examTime ?t)" by code_simp+
  have p1: "parseTime (currentTime ?s) = Some ?n" by code_simp
  have p2: "parseTime (examTime ?s) = Some ?e" by code_simp
  have q1: "parseTime (currentTime ?t) = Some 5" by code_simp
  have q2: "parseTime (examTime ?t) = Some 9" by code_simp
  have s2: "sleepHoursS2 (local_availableHours ?n ?e) = 8 - 1 / 2 ^ 49" by code_simp
  have cs: "\<not> (local_availableHours ?n ?e < 5 \<or>
           (local_boostS1 (local_availableHours ?n ?e)
              > local_boostS2 (cognitiveStateFactor (hoursStudied ?s) ?n)
                  (finalConfidence (quizAnswers ?s) (confidence ?s)) (local_availableHours ?n ?e)
            \<and> sleepHoursS1 (local_availableHours ?n ?e) \<ge> 6))" by code_simp
  have ds: "map_option (map_option decision \<circ> result) (calculateRecommendation ?s)
             = Some (Some StrategicCram)"
    using calc_decision [OF p1 p2] cs by (simp only: if_False)
  have ct: "local_availableHours 5 9 < 5 \<or>
           (local_boostS1 (local_availableHours 5 9)
              > local_boostS2 (cognitiveStateFactor (hoursStudied ?t) 5)
                  (finalConfidence (quizAnswers ?t) (confidence ?t)) (local_availableHours 5 9)
            \<and> sleepHoursS1 (local_availableHours 5 9) \<ge> 6)" by code_simp
  have dt: "map_option (map_option decision \<circ> result) (calculateRecommendation ?t)
             = Some (Some Sleep)"
    using calc_decision [OF q1 q2] ct by (simp only: if_True)
  have bs: "Math_round (max 0 (local_boostS2 (cognitiveStateFactor (hoursStudied ?s) ?n)
      (finalConfidence (quizAnswers ?s) (confidence ?s)) (local_availableHours ?n ?e))) = 55"
    by code_simp
  have bt: "Math_round (max 0 (local_boostS1 (local_availableHours 5 9))) = 0" by code_simp
  from projectedBoost_clamped [OF v(1,2) p1 p2] obtain s' r where
    c: "calculateRecommendation ?s = Some s'" "result s' = Some r"
    and i: "projectedBoost r = Math_round (max 0 (if decision r = Sleep
        then local_boostS1 (local_availableHours ?n ?e)
        else local_boostS2 (cognitiveStateFactor (hoursStudied ?s) ?n)
               (finalConfidence (quizAnswers ?s) (confidence ?s)) (local_availableHours ?n ?e)))"
    by blast
  from ds c have d: "decision r = StrategicCram" by simp
  with i bs have "projectedBoost r = 55" by simp
  with c d have A: "\<exists>s' r. calculateRecommendation ?s = Some s' \<and> result s' = Some r
      \<and> decision r = StrategicCram \<and> projectedBoost r = 55" by blast
  from projectedBoost_clamped [OF v(3,4) q1 q2] obtain t' u where
    c': "calculateRecommendation ?t = Some t'" "result t' = Some u"
    and i': "projectedBoost u = Math_round (max 0 (if decision u = Sleep
        then local_boostS1 (local_availableHours 5 9)
        else local_boostS2 (cognitiveStateFactor (hoursStudied ?t) 5)
               (finalConfidence (quizAnswers ?t) (confidence ?t)) (local_availableHours 5 9)))"
    by blast
  from dt c' have d': "decision u = Sleep" by simp
  with i' bt have "projectedBoost u = 0" by simp
  with c' d' have B: "\<exists>s' r. calculateRecommendation ?t = Some s' \<and> result s' = Some r
      \<and> decision r = Sleep \<and> projectedBoost r = 0" by blast
  from s2 A B show ?thesis by (intro conjI)
qed

subsection \<open>The sleep benefit\<close>

text \<open>
  C4. \<open>getSleepBenefit\<close> is 25 for every \<open>sleepHours \<ge> 8\<close>, 15 for
  \<open>6 \<le> sleepHours < 8\<close>, 5 for \<open>4 \<le> sleepHours < 6\<close>, \<open>- 25\<close> for every \<open>sleepHours\<close>
  strictly between 0 and 4, and \<open>- 40\<close> for \<open>sleepHours = 0\<close>.
\<close>

theorem getSleepBenefit_breakpoints:
  "(8 \<le> sleepHours \<longrightarrow> getSleepBenefit sleepHours = 25) \<and>
   (6 \<le> sleepHours \<and> sleepHours < 8 \<longrightarrow> getSleepBenefit sleepHours = 15) \<and>
   (4 \<le> sleepHours \<and> sleepHours < 6 \<longrightarrow> getSleepBenefit sleepHours = 5) \<and>
   (0 < sleepHours \<and> sleepHours < 4 \<longrightarrow> getSleepBenefit sleepHours = - 25) \<and>
   (sleepHours = 0 \<longrightarrow> getSleepBenefit sleepHours = - 40)"
  by (simp add: getSleepBenefit_def optimalSleep_def minSleepNeeded_def)

text \<open>The breakpoints 8, 6, 4, 3.9 and 0.\<close>

theorem getSleepBenefit_breakpoints_witness:
  "getSleepBenefit 8 = 25 \<and> getSleepBenefit 6 = 15 \<and> getSleepBenefit 4 = 5 \<and>
   getSleepBenefit (39 / 10) = - 25 \<and> getSleepBenefit 0 = - 40"
  using getSleepBenefit_breakpoints [of 8] getSleepBenefit_breakpoints [of 6]
    getSleepBenefit_breakpoints [of 4] getSleepBenefit_breakpoints [of "39 / 10"]
    getSleepBenefit_breakpoints [of 0]
  by simp

subsection \<open>The time that is left\<close>

text \<open>
  C5. For every pair of valid HH:MM strings both times parse, and \<open>availableHours\<close> (the exam
  time minus the current time in hours, plus 24 when that is negative) is at least 0 and
  less than 24; from 23:00 to 01:00 it is exactly 2.
\<close>

theorem availableHours_range:
  assumes "valid_time current" and "valid_time exam_str"
  shows "(\<exists>now exam. parseTime current = Some now \<and> parseTime exam_str = Some exam \<and>
            0 \<le> local_availableHours now exam \<and> local_availableHours now exam < 24) \<and>
         parseTime ''23:00'' = Some 23 \<and> parseTime ''01:00'' = Some 1 \<and>
         local_availableHours 23 1 = 2"
proof -
  from parseTime_valid [OF assms(1)] obtain h m where hm: "h \<le> 23" "m \<le> 59"
    and n: "parseTime current = Some (add_d (of_nat h) (div_d (of_nat m) 60))" by blast
  from parseTime_valid [OF assms(2)] obtain h' m' where hm': "h' \<le> 23" "m' \<le> 59"
    and e: "parseTime exam_str = Some (add_d (of_nat h') (div_d (of_nat m') 60))" by blast
  from local_availableHours_clock [OF hm hm'] n e
  have "\<exists>now exam. parseTime current = Some now \<and> parseTime exam_str = Some exam \<and>
            0 \<le> local_availableHours now exam \<and> local_availableHours now exam < 24"
    by blast
  moreover have "parseTime ''23:00'' = Some 23" by code_simp
  moreover have "parseTime ''01:00'' = Some 1" by code_simp
  moreover have "local_availableHours 23 1 = 2" by code_simp
  ultimately show ?thesis by blast
qed

theorem availableHours_range_witness:
  "valid_time ''23:00'' \<and> valid_time ''01:00'' \<and>
   (\<exists>now exam. parseTime ''23:00'' = Some now \<and> parseTime ''01:00'' = Some exam \<and>
      0 \<le> local_availableHours now exam \<and> local_availableHours now exam < 24)"
proof -
  have v1: "valid_time ''23:00''" by code_simp
  have v2: "valid_time ''01:00''" by code_simp
  show ?thesis using availableHours_range [OF v1 v2] v1 v2 by blast
qed

subsection \<open>The cramming benefit and the confidence\<close>

text \<open>
  C6, as the claim states it, fails: with less than one hour of study the base is 0, and
  the benefit is 0 at every confidence. Here with half an hour, rested and at noon.
\<close>

theorem cram_confidence_strict_counterexample:
  "\<not> (getCramBenefit (cognitiveStateFactor 0 12) (lowConfidence 80) (highConfidence 80) (1 / 2)
        < getCramBenefit (cognitiveStateFactor 0 12) (lowConfidence 50) (highConfidence 50) (1 / 2))
   \<and> \<not> (getCramBenefit (cognitiveStateFactor 0 12) (lowConfidence 50) (highConfidence 50) (1 / 2)
        < getCramBenefit (cognitiveStateFactor 0 12) (lowConfidence 20) (highConfidence 20) (1 / 2))"
  by (simp add: getCramBenefit_below)

text \<open>
  C6, amended. For every number of study hours of at least 1 and every cognitive state, the
  cramming benefit with \<open>finalConfidence \<ge> 75\<close> is strictly less than the benefit with
  \<open>35 < finalConfidence < 75\<close>, and the benefit with \<open>finalConfidence \<le> 35\<close> is strictly
  greater than it. With less than 1 study hour the benefit is 0 at every confidence.
\<close>

theorem cram_confidence_order:
  fixes studied now :: rat
  assumes "75 \<le> fc_high" and "35 < fc_mid" and "fc_mid < 75" and "fc_low \<le> 35"
  defines "csf \<equiv> cognitiveStateFactor studied now"
  shows "(1 \<le> hours \<longrightarrow>
            getCramBenefit csf (lowConfidence fc_high) (highConfidence fc_high) hours
              < getCramBenefit csf (lowConfidence fc_mid) (highConfidence fc_mid) hours \<and>
            getCramBenefit csf (lowConfidence fc_mid) (highConfidence fc_mid) hours
              < getCramBenefit csf (lowConfidence fc_low) (highConfidence fc_low) hours) \<and>
         (hours < 1 \<longrightarrow> getCramBenefit csf (lowConfidence fc) (highConfidence fc) hours = 0)"
proof -
  have pos: "0 < csf" unfolding csf_def by (rule cognitiveStateFactor_pos)
  have lo: "lowConfidence fc_low" "\<not> lowConfidence fc_mid" "\<not> lowConfidence fc_high"
    and hi: "highConfidence fc_high" "\<not> highConfidence fc_mid" "\<not> highConfidence fc_low"
    using assms(1-4) by (simp_all add: lowConfidence_def highConfidence_def)
  have zero: "hours < 1 \<longrightarrow> getCramBenefit csf (lowConfidence fc) (highConfidence fc) hours = 0"
    by (simp add: getCramBenefit_below)
  have strict: "1 \<le> hours \<longrightarrow>
            getCramBenefit csf False True hours < getCramBenefit csf False False hours \<and>
            getCramBenefit csf False False hours < getCramBenefit csf True False hours"
    using pos getCramBenefit_order(1) [of hours csf] getCramBenefit_order(2) [of hours csf False]
    by blast
  show ?thesis using zero strict lo hi by simp
qed

text \<open>Three hours of study, rested, at 22:00: 15 at confidence 80, 20 at 50, 25 at 20.\<close>

theorem cram_confidence_order_witness:
  "getCramBenefit (cognitiveStateFactor 0 22) (lowConfidence 80) (highConfidence 80) 3 = 15 \<and>
   getCramBenefit (cognitiveStateFactor 0 22) (lowConfidence 50) (highConfidence 50) 3 = 20 \<and>
   getCramBenefit (cognitiveStateFactor 0 22) (lowConfidence 20) (highConfidence 20) 3 = 25 \<and>
   getCramBenefit (cognitiveStateFactor 0 22) (lowConfidence 80) (highConfidence 80) 3
     < getCramBenefit (cognitiveStateFactor 0 22) (lowConfidence 50) (highConfidence 50) 3 \<and>
   getCramBenefit (cognitiveStateFactor 0 22) (lowConfidence 50) (highConfidence 50) 3
     < getCramBenefit (cognitiveStateFactor 0 22) (lowConfidence 20) (highConfidence 20) 3"
proof -
  have v: "getCramBenefit (cognitiveStateFactor 0 22) (lowConfidence 80) (highConfidence 80) 3 = 15"
    "getCramBenefit (cognitiveStateFactor 0 22) (lowConfidence 50) (highConfidence 50) 3 = 20"
    "getCramBenefit (cognitiveStateFactor 0 22) (lowConfidence 20) (highConfidence 20) 3 = 25"
    by code_simp+
  have h: "(75::int) \<le> 80" "(35::int) < 50" "(50::int) < 75" "(20::int) \<le> 35" by simp_all
  from cram_confidence_order [OF h, where hours = 3 and studied = 0 and now = 22] v
  show ?thesis by simp
qed

subsection \<open>The blended confidence\<close>



subsection \<open>Determinism\<close>

text \<open>
  C8. The stored result depends on \<open>currentTime\<close>, \<open>examTime\<close>, \<open>hoursStudied\<close>, the
  confidence slider and the quiz answers only: from two states that agree on these five,
  whatever their \<open>step\<close> and their earlier \<open>result\<close>, \<open>calculateRecommendation\<close> stores the
  same result, equal in every field (or stores none from either).
\<close>

theorem calculateRecommendation_deterministic:
  assumes "currentTime s = currentTime t" and "examTime s = examTime t"
    and "hoursStudied s = hoursStudied t" and "confidence s = confidence t"
    and "quizAnswers s = quizAnswers t"
  shows "map_option result (calculateRecommendation s)
           = map_option result (calculateRecommendation t)"
  unfolding calculateRecommendation_def assms
  by (simp add: Let_def split: option.splits prod.splits)

text \<open>
  The initial state, and the state after a first run that went back to the quiz: both store
  the same result, and they do store one.
\<close>

theorem calculateRecommendation_deterministic_witness:
  "map_option result (calculateRecommendation initialState)
     = map_option result (calculateRecommendation
         (initialState\<lparr>step := ''quiz'',
            result := Some \<lparr>decision = Sleep, reasoning = ''earlier'', projectedBoost = 7,
              actionPlan = [], scienceNote = [], availableHours = 1, effectiveStudyHours = 0,
              cognitiveState = 0, adjustedConfidence = 0, boostS1 = 0, boostS2 = 0,
              sleepBenefitS1 = 0, cramBenefitS2 = 0, sleepBenefitS2 = 0\<rparr>\<rparr>))
   \<and> map_option result (calculateRecommendation initialState) \<noteq> None
   \<and> map_option result (calculateRecommendation initialState) \<noteq> Some None"
proof -
  let ?t = "initialState\<lparr>step := ''quiz'',
            result := Some \<lparr>decision = Sleep, reasoning = ''earlier'', projectedBoost = 7,
              actionPlan = [], scienceNote = [], availableHours = 1, effectiveStudyHours = 0,
              cognitiveState = 0, adjustedConfidence = 0, boostS1 = 0, boostS2 = 0,
              sleepBenefitS1 = 0, cramBenefitS2 = 0, sleepBenefitS2 = 0\<rparr>\<rparr>"
  have eq: "map_option result (calculateRecommendation initialState)
     = map_option result (calculateRecommendation ?t)"
    using calculateRecommendation_deterministic [of initialState ?t] by simp
  have p1: "parseTime (currentTime initialState) = Some 22" by code_simp
  have p2: "parseTime (examTime initialState) = Some 9" by code_simp
  from calc_fields [OF p1 p2] obtain s' r where
    "calculateRecommendation initialState = Some s'" "result s' = Some r" by blast
  then have r: "map_option result (calculateRecommendation initialState) = Some (Some r)"
    by simp
  show ?thesis
  proof (intro conjI)
    show "map_option result (calculateRecommendation initialState)
            = map_option result (calculateRecommendation ?t)"
      by (rule eq)
    show "map_option result (calculateRecommendation initialState) \<noteq> None"
      unfolding r by simp
    show "map_option result (calculateRecommendation initialState) \<noteq> Some None"
      unfolding r by simp
  qed
qed

subsection \<open>The study hours that are reported\<close>

text \<open>
  C9. For every input with two valid clock times: when the decision is \<open>Sleep\<close> the stored
  \<open>effectiveStudyHours\<close> is 0; when it is \<open>StrategicCram\<close> the stored value is
  \<open>studyHoursS2\<close> truncated to one decimal, that is \<open>Math.floor(studyHoursS2 * 10) / 10\<close>
  computed in doubles, and lies between 0 and 3.
\<close>

theorem effectiveStudyHours_by_decision:
  assumes "valid_time (currentTime s)" and "valid_time (examTime s)"
    and now: "parseTime (currentTime s) = Some now"
    and exam: "parseTime (examTime s) = Some exam"
  defines "avail \<equiv> local_availableHours now exam"
  shows "\<exists>s' r. calculateRecommendation s = Some s' \<and> result s' = Some r \<and>
     (decision r = Sleep \<longrightarrow> effectiveStudyHours r = 0) \<and>
     (decision r = StrategicCram \<longrightarrow>
        effectiveStudyHours r = div_d (of_int \<lfloor>mul_d (studyHoursS2 avail) 10\<rfloor>) 10 \<and>
        0 \<le> effectiveStudyHours r \<and> effectiveStudyHours r \<le> 3)"
proof -
  from calc_fields [OF now exam] obtain s' r where
    c: "calculateRecommendation s = Some s'" "result s' = Some r"
    and e: "effectiveStudyHours r =
       div_d (of_int (Math_floor (mul_d (if decision r = StrategicCram
          then studyHoursS2 avail else 0) 10))) 10"
    unfolding avail_def by blast
  have sl: "decision r = Sleep \<longrightarrow> effectiveStudyHours r = 0"
  proof
    assume "decision r = Sleep"
    then have "decision r \<noteq> StrategicCram" by simp
    then have "effectiveStudyHours r = div_d (of_int (Math_floor (mul_d 0 10))) 10"
      using e by (simp only: if_False)
    then show "effectiveStudyHours r = 0"
      by (simp add: Math_floor_def mul_d_def div_d_def to_double_zero)
  qed
  have cr: "decision r = StrategicCram \<longrightarrow>
        effectiveStudyHours r = div_d (of_int \<lfloor>mul_d (studyHoursS2 avail) 10\<rfloor>) 10 \<and>
        0 \<le> effectiveStudyHours r \<and> effectiveStudyHours r \<le> 3"
  proof
    assume "decision r = StrategicCram"
    then have eq: "effectiveStudyHours r
        = div_d (of_int (Math_floor (mul_d (studyHoursS2 avail) 10))) 10"
      using e by (simp only: simp_thms if_True)
    from studyHoursS2_range [of avail] have "0 \<le> studyHoursS2 avail" "studyHoursS2 avail \<le> 3"
      by simp_all
    from tenths_range(3,4) [OF this]
    have "0 \<le> effectiveStudyHours r" "effectiveStudyHours r \<le> 3" unfolding eq .
    moreover have "effectiveStudyHours r = div_d (of_int \<lfloor>mul_d (studyHoursS2 avail) 10\<rfloor>) 10"
      unfolding eq Math_floor_def ..
    ultimately show "effectiveStudyHours r = div_d (of_int \<lfloor>mul_d (studyHoursS2 avail) 10\<rfloor>) 10 \<and>
        0 \<le> effectiveStudyHours r \<and> effectiveStudyHours r \<le> 3" by blast
  qed
  from c sl cr show ?thesis by blast
qed

text \<open>
  From 00:00 to 07:06 the decision is \<open>StrategicCram\<close>; the study hours are
  \<open>7.1 - 6 - 1\<close> in doubles, a little less than 0.1, and 0 is stored.
\<close>

theorem effectiveStudyHours_by_decision_witness:
  "valid_time ''00:00'' \<and> valid_time ''07:06'' \<and>
   studyHoursS2 (local_availableHours 0 (3996944669291315 / 562949953421312))
     = 56294995342131 / 562949953421312 \<and>
   (56294995342131 / 562949953421312 :: rat) < 1 / 10 \<and>
   (\<exists>s' r. calculateRecommendation
       \<lparr>step = ''quiz'', examTime = ''07:06'', currentTime = ''00:00'', confidence = 50,
        hoursStudied = 0, quizAnswers = \<lparr>q1 = 0, q2 = 0, q3 = 0\<rparr>, result = None\<rparr> = Some s'
     \<and> result s' = Some r \<and> decision r = StrategicCram \<and> effectiveStudyHours r = 0)"
proof -
  let ?s = "\<lparr>step = ''quiz'', examTime = ''07:06'', currentTime = ''00:00'', confidence = 50,
        hoursStudied = 0, quizAnswers = \<lparr>q1 = 0, q2 = 0, q3 = 0\<rparr>, result = None\<rparr>"
  let ?e = "3996944669291315 / 562949953421312 :: rat"
  have v1: "valid_time (currentTime ?s)" and v2: "valid_time (examTime ?s)" by code_simp+
  have p1: "parseTime (currentTime ?s) = Some 0" by code_simp
  have p2: "parseTime (examTime ?s) = Some ?e" by code_simp
  have st: "studyHoursS2 (local_availableHours 0 ?e) = 56294995342131 / 562949953421312"
    by code_simp
  have cond: "\<not> (local_availableHours 0 ?e < 5 \<or>
           (local_boostS1 (local_availableHours 0 ?e)
              > local_boostS2 (cognitiveStateFactor (hoursStudied ?s) 0)
                  (finalConfidence (quizAnswers ?s) (confidence ?s)) (local_availableHours 0 ?e)
            \<and> sleepHoursS1 (local_availableHours 0 ?e) \<ge> 6))" by code_simp
  have d: "map_option (map_option decision \<circ> result) (calculateRecommendation ?s)
             = Some (Some StrategicCram)"
    using calc_decision [OF p1 p2] cond by (simp only: if_False)
  have v: "div_d (of_int \<lfloor>mul_d (56294995342131 / 562949953421312) 10\<rfloor>) 10 = 0"
    by code_simp
  from effectiveStudyHours_by_decision [OF v1 v2 p1 p2] obtain s' r where
    c: "calculateRecommendation ?s = Some s'" "result s' = Some r"
    and i: "decision r = StrategicCram \<longrightarrow>
        effectiveStudyHours r = div_d (of_int \<lfloor>mul_d (studyHoursS2 (local_availableHours 0 ?e)) 10\<rfloor>) 10"
    by blast
  from d c have dr: "decision r = StrategicCram" by simp
  with i have "effectiveStudyHours r = 0" unfolding st v by blast
  with c dr have "\<exists>s' r. calculateRecommendation ?s = Some s' \<and> result s' = Some r
      \<and> decision r = StrategicCram \<and> effectiveStudyHours r = 0" by blast
  moreover have "(56294995342131 / 562949953421312 :: rat) < 1 / 10" by simp
  ultimately show ?thesis using v1 v2 st by simp
qed

subsection \<open>The sleep decision with enough time\<close>

text \<open>
  C10. For every input with two valid clock times and with \<open>availableHours \<ge> 5\<close>: when the
  decision is \<open>Sleep\<close> (so \<open>boostS1 > boostS2\<close> and \<open>sleepHoursS1 \<ge> 6\<close>), \<open>boostS1\<close> is at
  least 15 and the stored \<open>projectedBoost\<close> is \<open>boostS1\<close> itself: the clamp
  \<open>max(0, boost)\<close> and the rounding leave it as it is.
\<close>

theorem sleep_branch_boost_unclamped:
  assumes "valid_time (currentTime s)" and "valid_time (examTime s)"
    and now: "parseTime (currentTime s) = Some now"
    and exam: "parseTime (examTime s) = Some exam"
  defines "avail \<equiv> local_availableHours now exam"
  defines "b1 \<equiv> local_boostS1 avail"
  defines "b2 \<equiv> local_boostS2 (cognitiveStateFactor (hoursStudied s) now)
                   (finalConfidence (quizAnswers s) (confidence s)) avail"
  shows "\<exists>s' r. calculateRecommendation s = Some s' \<and> result s' = Some r \<and>
     (5 \<le> avail \<and> decision r = Sleep \<longrightarrow>
        b1 > b2 \<and> 6 \<le> sleepHoursS1 avail \<and> 15 \<le> b1 \<and>
        max 0 b1 = b1 \<and> of_int (projectedBoost r) = b1)"
proof -
  from calc_fields [OF now exam] obtain s' r where
    c: "calculateRecommendation s = Some s'" "result s' = Some r"
    and d: "decision r = (if avail < 5 \<or> (b1 > b2 \<and> sleepHoursS1 avail \<ge> 6)
                          then Sleep else StrategicCram)"
    and p: "projectedBoost r = Math_round (max 0 (if decision r = Sleep then b1 else b2))"
    unfolding avail_def b1_def b2_def by blast
  have "b1 > b2 \<and> 6 \<le> sleepHoursS1 avail \<and> 15 \<le> b1 \<and>
        max 0 b1 = b1 \<and> of_int (projectedBoost r) = b1"
    if a: "5 \<le> avail" and sl: "decision r = Sleep"
  proof -
    from d a sl have w: "b1 > b2" "6 \<le> sleepHoursS1 avail"
      by (simp_all split: if_splits)
    from getSleepBenefit_adequate [OF w(2)] have v: "b1 = 15 \<or> b1 = 25"
      unfolding b1_def local_boostS1_def .
    from p sl have pb: "projectedBoost r = Math_round (max 0 b1)" by simp
    from v show ?thesis
    proof
      assume "b1 = 15"
      with pb w show ?thesis by (simp add: Math_round_numeral)
    next
      assume "b1 = 25"
      with pb w show ?thesis by (simp add: Math_round_numeral)
    qed
  qed
  with c show ?thesis by blast
qed

text \<open>
  At 22:02 with the exam at 08:02, four hours studied and the slider at 10: in doubles a
  little less than 10 hours are left and a little less than 3 of them are study hours, so
  the split scores 23; sleeping scores 25 and is chosen, and 25 is stored.
\<close>

theorem sleep_branch_boost_unclamped_witness:
  "valid_time ''22:02'' \<and> valid_time ''08:02'' \<and>
   5 \<le> local_availableHours (6201831986858121 / 281474976710656)
          (4522364625817873 / 562949953421312) \<and>
   studyHoursS2 (local_availableHours (6201831986858121 / 281474976710656)
          (4522364625817873 / 562949953421312)) < 3 \<and>
   local_boostS1 (local_availableHours (6201831986858121 / 281474976710656)
          (4522364625817873 / 562949953421312)) = 25 \<and>
   (\<exists>s' r. calculateRecommendation
       \<lparr>step = ''quiz'', examTime = ''08:02'', currentTime = ''22:02'', confidence = 10,
        hoursStudied = 4, quizAnswers = \<lparr>q1 = 0, q2 = 0, q3 = 0\<rparr>, result = None\<rparr> = Some s'
     \<and> result s' = Some r \<and> decision r = Sleep \<and> projectedBoost r = 25)"
proof -
  let ?s = "\<lparr>step = ''quiz'', examTime = ''08:02'', currentTime = ''22:02'', confidence = 10,
        hoursStudied = 4, quizAnswers = \<lparr>q1 = 0, q2 = 0, q3 = 0\<rparr>, result = None\<rparr>"
  let ?n = "6201831986858121 / 281474976710656 :: rat"
  let ?e = "4522364625817873 / 562949953421312 :: rat"
  have v1: "valid_time (currentTime ?s)" and v2: "valid_time (examTime ?s)" by code_simp+
  have p1: "parseTime (currentTime ?s) = Some ?n" by code_simp
  have p2: "parseTime (examTime ?s) = Some ?e" by code_simp
  have a: "5 \<le> local_availableHours ?n ?e" by code_simp
  have st: "studyHoursS2 (local_availableHours ?n ?e) < 3" by code_simp
  have b: "local_boostS1 (local_availableHours ?n ?e) = 25" by code_simp
  have cond: "local_availableHours ?n ?e < 5 \<or>
           (local_boostS1 (local_availableHours ?n ?e)
              > local_boostS2 (cognitiveStateFactor (hoursStudied ?s) ?n)
                  (finalConfidence (quizAnswers ?s) (confidence ?s)) (local_availableHours ?n ?e)
            \<and> sleepHoursS1 (local_availableHours ?n ?e) \<ge> 6)" by code_simp
  have d: "map_option (map_option decision \<circ> result) (calculateRecommendation ?s)
             = Some (Some Sleep)"
    using calc_decision [OF p1 p2] cond by (simp only: if_True)
  from sleep_branch_boost_unclamped [OF v1 v2 p1 p2] obtain s' r where
    c: "calculateRecommendation ?s = Some s'" "result s' = Some r"
    and i: "5 \<le> local_availableHours ?n ?e \<and> decision r = Sleep \<longrightarrow>
        rat_of_int (projectedBoost r) = local_boostS1 (local_availableHours ?n ?e)"
    by blast
  from d c have sl: "decision r = Sleep" by simp
  with i a b have "rat_of_int (projectedBoost r) = 25" by simp
  then have "projectedBoost r = 25" by (metis of_int_eq_iff of_int_numeral)
  with c sl have "\<exists>s' r. calculateRecommendation ?s = Some s' \<and> result s' = Some r
      \<and> decision r = Sleep \<and> projectedBoost r = 25" by blast
  with v1 v2 a st b show ?thesis by simp
qed

end
